theory Spec2Isabelle
  imports Main
begin

section \<open>Python strings\<close>

text \<open>
  A Python \<open>str\<close> is modelled as a \<open>string\<close> whose characters are code points below 256.
  \<open>isspace\<close> is the set of such code points that \<open>str.split()\<close> and \<open>str.strip()\<close> treat as
  whitespace: TAB, LF, VT, FF, CR, the separators 0x1C to 0x1F, SPACE, NEL (0x85) and NBSP (0xA0).
\<close>

definition isspace :: "char \<Rightarrow> bool" where
  "isspace c = (c \<in> set [CHR 0x09, CHR 0x0A, CHR 0x0B, CHR 0x0C, CHR 0x0D,
                          CHR 0x1C, CHR 0x1D, CHR 0x1E, CHR 0x1F, CHR 0x20, CHR 0x85, CHR 0xA0])"

text \<open>\<open>split_where p s\<close> cuts \<open>s\<close> at every character satisfying \<open>p\<close>; the pieces may be empty.\<close>

fun split_where :: "(char \<Rightarrow> bool) \<Rightarrow> string \<Rightarrow> string list" where
  "split_where p [] = [[]]"
| "split_where p (c # cs) =
     (if p c then [] # split_where p cs
      else (case split_where p cs of
              [] \<Rightarrow> [[c]]
            | w # ws \<Rightarrow> (c # w) # ws))"

text \<open>\<open>s.split(sep)\<close> for a one-character separator, the only way the source calls it.\<close>

definition str_split_sep :: "char \<Rightarrow> string \<Rightarrow> string list" where
  "str_split_sep sep s = split_where (\<lambda>c. c = sep) s"

text \<open>\<open>s.split()\<close>: the maximal runs of non-whitespace characters.\<close>

definition str_split :: "string \<Rightarrow> string list" where
  "str_split s = filter (\<lambda>w. w \<noteq> []) (split_where isspace s)"

text \<open>\<open>s.strip()\<close>.\<close>

definition str_strip :: "string \<Rightarrow> string" where
  "str_strip s = rev (dropWhile isspace (rev (dropWhile isspace s)))"

text \<open>\<open>s.startswith(p)\<close> and \<open>s.endswith(p)\<close>.\<close>

definition startswith :: "string \<Rightarrow> string \<Rightarrow> bool" where
  "startswith s p = (take (length p) s = p)"

definition endswith :: "string \<Rightarrow> string \<Rightarrow> bool" where
  "endswith s p = (drop (length s - length p) s = p \<and> length p \<le> length s)"

text \<open>
  \<open>s.replace(old, new)\<close>: every non-overlapping occurrence of \<open>old\<close>, scanning from the left,
  is replaced. With an empty \<open>old\<close> Python inserts \<open>new\<close> before every character and at the end.
\<close>

function str_replace_scan :: "string \<Rightarrow> string \<Rightarrow> string \<Rightarrow> string" where
  "str_replace_scan old new [] = []"
| "str_replace_scan old new (c # cs) =
     (if old \<noteq> [] \<and> startswith (c # cs) old
      then new @ str_replace_scan old new (drop (length old) (c # cs))
      else c # str_replace_scan old new cs)"
  by pat_completeness auto
termination
  by (relation "measure (\<lambda>(old, new, s). length s)") auto

definition str_replace :: "string \<Rightarrow> string \<Rightarrow> string \<Rightarrow> string" where
  "str_replace old new s =
     (if old = [] then new @ concat (map (\<lambda>c. c # new) s)
      else str_replace_scan old new s)"

text \<open>\<open>' '.join\<close>, the \<open>join_spaces\<close> attribute of every corpus creator.\<close>

fun join_spaces :: "string list \<Rightarrow> string" where
  "join_spaces [] = []"
| "join_spaces [s] = s"
| "join_spaces (s # t # ss) = s @ '' '' @ join_spaces (t # ss)"

section \<open>Data model\<close>

text \<open>
  A job posting is a dict from field names to strings. \<open>document[f]\<close> raises \<open>KeyError(f)\<close>
  when \<open>f\<close> is absent; \<open>document.get(f, '')\<close> does not.
\<close>

type_synonym document = "string \<rightharpoonup> string"

datatype error = KeyError string | AttributeError string

definition getitem :: "document \<Rightarrow> string \<Rightarrow> error + string" where
  "getitem document f = (case document f of None \<Rightarrow> Inl (KeyError f) | Some v \<Rightarrow> Inr v)"

definition get_default :: "document \<Rightarrow> string \<Rightarrow> string \<Rightarrow> string" where
  "get_default document f d = (case document f of None \<Rightarrow> d | Some v \<Rightarrow> v)"

text \<open>
  \<open>NLPTransforms\<close> (module \<open>skills_ml.algorithms.string_cleaners\<close>) is not part of the
  sources at hand; the methods the corpus creators call are the fields of this record, each a
  total function on strings.
\<close>

record nlp_transforms =
  clean_html :: "string \<Rightarrow> string"
  lowercase_strip_punc :: "string \<Rightarrow> string"
  clean_str :: "string \<Rightarrow> string"
  sentence_tokenize :: "string \<Rightarrow> string list"
  word_tokenize :: "string \<Rightarrow> string list"

text \<open>\<open>TaggedDocument(words, tags)\<close> of gensim: a named pair.\<close>

record tagged_document =
  words :: "string list"
  tags :: "int list"

text \<open>
  A corpus creator object. The first five fields are the attributes \<open>CorpusCreator.__init__\<close>
  assigns; \<open>document_schema_fields\<close> is the entry of the instance's own attribute dictionary
  (\<open>None\<close>: no such entry). \<open>cls_document_schema_fields\<close> is the attribute of that name which
  the class of the object defines in its body, if it does
  (only \<open>JobCategoryCorpusCreator\<close> does). The source sequence is a finite list of documents.
\<close>

record corpus_creator =
  job_posting_generator :: "document list"
  nlp :: nlp_transforms
  raw :: bool
  document_schema_fields :: "string list option"
  key :: "string list"
  cls_document_schema_fields :: "string list option"

text \<open>\<open>Doc2VecGensimCorpusCreator\<close> adds \<open>lookup\<close> and \<open>k\<close>; a lookup value \<open>None\<close> is Python's \<open>None\<close>.\<close>

record doc2vec_gensim_corpus_creator = corpus_creator +
  lookup :: "int \<rightharpoonup> string option"
  k :: int

text \<open>
  \<open>SectionExtractCorpusCreator\<close> adds \<open>section_regex\<close>. The pattern is only ever used as
  \<open>re.match(self.section_regex, heading)\<close> in a condition, so it is kept as the predicate
  "the pattern matches at the start of this string".
\<close>

record section_extract_corpus_creator = doc2vec_gensim_corpus_creator +
  section_regex :: "string \<Rightarrow> bool"

text \<open>For a pattern without metacharacters, \<open>re.match\<close> succeeds exactly on the strings that start with it.\<close>

definition re_match_literal :: "string \<Rightarrow> string \<Rightarrow> bool" where
  "re_match_literal pattern s = startswith s pattern"

section \<open>SectionExtractCorpusCreator._transform\<close>

text \<open>
  The inner loop over the bullet markers: each marker the line starts with (at that moment) is
  removed with \<open>line.replace(bullet_char, '')\<close>.
\<close>

definition strip_bullet_chars :: "string \<Rightarrow> string" where
  "strip_bullet_chars line =
     foldl (\<lambda>line bullet_char.
              if startswith line bullet_char then str_replace bullet_char [] line else line)
           line [''+ '', ''* '', ''- '']"

text \<open>
  The heading test of the loop apart from \<open>prior_empty\<close>. \<open>line[0]\<close> is read only when
  \<open>line.strip()\<close> is non-empty, where it equals \<open>take 1 line\<close>.
\<close>

definition heading_like :: "string \<Rightarrow> bool" where
  "heading_like line =
     (let words_in_line = length (str_split_sep CHR '' '' line)
      in str_strip line \<noteq> [] \<and> take 1 line \<notin> set [''+'', ''*'', ''-''] \<and>
         ((0 < words_in_line \<and> words_in_line < 4) \<or> endswith line '':''))"

text \<open>
  The loop over \<open>desclines\<close>, with the loop variables \<open>prior_empty\<close>, \<open>heading\<close> and \<open>words\<close> as
  arguments; it returns their final values.
\<close>

fun section_scan ::
  "(string \<Rightarrow> bool) \<Rightarrow> bool \<Rightarrow> string \<Rightarrow> string list \<Rightarrow> string list \<Rightarrow> bool \<times> string \<times> string list" where
  "section_scan re_match prior_empty heading ws [] = (prior_empty, heading, ws)"
| "section_scan re_match prior_empty heading ws (line # desclines) =
     (let heading' = (if prior_empty \<and> heading_like line then line else heading);
          prior_empty' = (str_strip line = []);
          ws' = (if re_match heading' \<and> line \<noteq> heading' \<and> 0 < length (str_strip line)
                 then ws @ str_split (strip_bullet_chars line)
                 else ws)
      in section_scan re_match prior_empty' heading' ws' desclines)"

definition SectionExtractCorpusCreator_transform ::
  "'a section_extract_corpus_creator_scheme \<Rightarrow> document \<Rightarrow> error + tagged_document" where
  "SectionExtractCorpusCreator_transform self document =
     (case getitem document ''description'' of
        Inl e \<Rightarrow> Inl e
      | Inr description \<Rightarrow>
          (let desclines = str_split_sep CHR ''\<newline>'' description;
               (prior_empty, heading, ws) = section_scan (section_regex self) False [] [] desclines
           in Inr \<lparr>words = ws, tags = [k self]\<rparr>))"

section \<open>Corpus creators\<close>

text \<open>A raised exception ends the computation: sequencing of fallible steps.\<close>

fun and_then :: "error + 'a \<Rightarrow> ('a \<Rightarrow> error + 'b) \<Rightarrow> error + 'b" where
  "and_then (Inl e) f = Inl e"
| "and_then (Inr x) f = f x"

text \<open>
  Reading \<open>self.document_schema_fields\<close>: Python finds the instance's own attribute first and
  falls back to the attribute of the object's class only when the instance has none.
\<close>

definition self_document_schema_fields :: "'a corpus_creator_scheme \<Rightarrow> error + string list" where
  "self_document_schema_fields self =
     (case document_schema_fields self of
        Some schema_fields \<Rightarrow> Inr schema_fields
      | None \<Rightarrow>
          (case cls_document_schema_fields self of
             Some schema_fields \<Rightarrow> Inr schema_fields
           | None \<Rightarrow> Inl (AttributeError ''document_schema_fields'')))"

subsection \<open>CorpusCreator\<close>

definition default_document_schema_fields :: "string list" where
  "default_document_schema_fields =
     [''description'', ''experienceRequirements'', ''qualifications'', ''skills'']"

text \<open>
  \<open>CorpusCreator.__init__\<close>, run on a new object of a class whose body defines
  \<open>cls_fields\<close> (or nothing) as \<open>document_schema_fields\<close>. The \<open>NLPTransforms()\<close> object it
  creates is the argument \<open>transforms\<close>.
\<close>

definition CorpusCreator_init ::
  "string list option \<Rightarrow> nlp_transforms \<Rightarrow> document list \<Rightarrow> string list \<Rightarrow> bool \<Rightarrow> corpus_creator" where
  "CorpusCreator_init cls_fields transforms generator schema_fields raw_flag =
     \<lparr>job_posting_generator = generator,
      nlp = transforms,
      raw = raw_flag,
      document_schema_fields = Some schema_fields,
      key = [''onet_soc_code''],
      cls_document_schema_fields = cls_fields\<rparr>"

definition CorpusCreator_new :: "nlp_transforms \<Rightarrow> document list \<Rightarrow> string list \<Rightarrow> bool \<Rightarrow> corpus_creator" where
  "CorpusCreator_new = CorpusCreator_init None"

text \<open>The body of the loop of \<open>_clean\<close>: the \<open>KeyError\<close> of \<open>document[f]\<close> is caught and ignored.\<close>

definition clean_field :: "nlp_transforms \<Rightarrow> document \<Rightarrow> string \<Rightarrow> document" where
  "clean_field transforms document f =
     (case getitem document f of
        Inl e \<Rightarrow> document
      | Inr v \<Rightarrow>
          (let cleaned = str_replace ''\<newline>'' [] (clean_html transforms v);
               cleaned' = join_spaces (str_split cleaned)
           in document(f \<mapsto> cleaned')))"

definition CorpusCreator_clean :: "'a corpus_creator_scheme \<Rightarrow> document \<Rightarrow> error + document" where
  "CorpusCreator_clean self document =
     and_then (self_document_schema_fields self)
       (\<lambda>schema_fields. Inr (foldl (clean_field (nlp self)) document schema_fields))"

definition CorpusCreator_join :: "'a corpus_creator_scheme \<Rightarrow> document \<Rightarrow> error + string" where
  "CorpusCreator_join self document =
     and_then (self_document_schema_fields self)
       (\<lambda>schema_fields. Inr (join_spaces (map (\<lambda>field. get_default document field []) schema_fields)))"

text \<open>What the base iteration yields: a joined string, or the cleaned document.\<close>

datatype corpus_unit = Str string | Doc document

text \<open>
  \<open>_transform\<close> calls \<open>self._clean\<close>, which a subclass may override: \<open>self_clean\<close> is the
  \<open>_clean\<close> of the object's class.
\<close>

definition CorpusCreator_transform ::
  "('a corpus_creator_scheme \<Rightarrow> document \<Rightarrow> error + corpus_unit) \<Rightarrow>
   'a corpus_creator_scheme \<Rightarrow> document \<Rightarrow> error + corpus_unit" where
  "CorpusCreator_transform self_clean self document =
     (if raw self then and_then (CorpusCreator_join self document) (\<lambda>s. Inr (Str s))
      else self_clean self document)"

text \<open>
  The dict comprehension \<open>{key: document[key] for key in fields}\<close>: the keys are read in order
  and the first absent one raises.
\<close>

fun project_onto :: "document \<Rightarrow> document \<Rightarrow> string list \<Rightarrow> error + document" where
  "project_onto acc document [] = Inr acc"
| "project_onto acc document (name # names) =
     (case getitem document name of
        Inl e \<Rightarrow> Inl e
      | Inr v \<Rightarrow> project_onto (acc(name \<mapsto> v)) document names)"

definition project :: "string list \<Rightarrow> document \<Rightarrow> error + document" where
  "project schema_fields document = project_onto Map.empty document schema_fields"

text \<open>
  \<open>__iter__\<close> is a generator. Run to its end over a finite source it yields a list of units and
  then either stops or raises: the pair of the units yielded and the exception, if any.
  \<open>self_transform\<close> is the \<open>_transform\<close> of the object's class.
\<close>

fun CorpusCreator_iter_from ::
  "('a corpus_creator_scheme \<Rightarrow> document \<Rightarrow> error + 'u) \<Rightarrow>
   'a corpus_creator_scheme \<Rightarrow> document list \<Rightarrow> 'u list \<times> error option" where
  "CorpusCreator_iter_from self_transform self [] = ([], None)"
| "CorpusCreator_iter_from self_transform self (document # rest) =
     (case and_then (self_document_schema_fields self)
             (\<lambda>schema_fields. and_then (project schema_fields document) (self_transform self)) of
        Inl e \<Rightarrow> ([], Some e)
      | Inr u \<Rightarrow>
          (case CorpusCreator_iter_from self_transform self rest of
             (us, r) \<Rightarrow> (u # us, r)))"

definition CorpusCreator_iter ::
  "('a corpus_creator_scheme \<Rightarrow> document \<Rightarrow> error + 'u) \<Rightarrow>
   'a corpus_creator_scheme \<Rightarrow> 'u list \<times> error option" where
  "CorpusCreator_iter self_transform self =
     CorpusCreator_iter_from self_transform self (job_posting_generator self)"

text \<open>The methods as the base class itself resolves them.\<close>

definition CorpusCreator_self_clean :: "'a corpus_creator_scheme \<Rightarrow> document \<Rightarrow> error + corpus_unit" where
  "CorpusCreator_self_clean self document =
     and_then (CorpusCreator_clean self document) (\<lambda>d. Inr (Doc d))"

definition CorpusCreator_self_transform :: "'a corpus_creator_scheme \<Rightarrow> document \<Rightarrow> error + corpus_unit" where
  "CorpusCreator_self_transform = CorpusCreator_transform CorpusCreator_self_clean"

definition CorpusCreator_self_iter :: "'a corpus_creator_scheme \<Rightarrow> corpus_unit list \<times> error option" where
  "CorpusCreator_self_iter = CorpusCreator_iter CorpusCreator_self_transform"

subsection \<open>SimpleCorpusCreator\<close>

text \<open>The class overrides \<open>_clean\<close> only; \<open>__init__\<close>, \<open>_transform\<close> and \<open>__iter__\<close> are inherited.\<close>

definition SimpleCorpusCreator_new :: "nlp_transforms \<Rightarrow> document list \<Rightarrow> string list \<Rightarrow> bool \<Rightarrow> corpus_creator" where
  "SimpleCorpusCreator_new = CorpusCreator_init None"

definition SimpleCorpusCreator_clean :: "'a corpus_creator_scheme \<Rightarrow> document \<Rightarrow> error + corpus_unit" where
  "SimpleCorpusCreator_clean self document =
     and_then (self_document_schema_fields self)
       (\<lambda>schema_fields. Inr (Str (join_spaces
          (map (\<lambda>field. lowercase_strip_punc (nlp self) (get_default document field [])) schema_fields))))"

definition SimpleCorpusCreator_transform :: "'a corpus_creator_scheme \<Rightarrow> document \<Rightarrow> error + corpus_unit" where
  "SimpleCorpusCreator_transform = CorpusCreator_transform SimpleCorpusCreator_clean"

definition SimpleCorpusCreator_iter :: "'a corpus_creator_scheme \<Rightarrow> corpus_unit list \<times> error option" where
  "SimpleCorpusCreator_iter = CorpusCreator_iter SimpleCorpusCreator_transform"

subsection \<open>JobCategoryCorpusCreator\<close>

text \<open>
  The class body assigns \<open>document_schema_fields = ['occupationalCategory']\<close> and overrides
  \<open>_transform\<close>; \<open>__init__\<close> and \<open>__iter__\<close> are inherited.
\<close>

definition JobCategoryCorpusCreator_document_schema_fields :: "string list" where
  "JobCategoryCorpusCreator_document_schema_fields = [''occupationalCategory'']"

definition JobCategoryCorpusCreator_new ::
  "nlp_transforms \<Rightarrow> document list \<Rightarrow> string list \<Rightarrow> bool \<Rightarrow> corpus_creator" where
  "JobCategoryCorpusCreator_new =
     CorpusCreator_init (Some JobCategoryCorpusCreator_document_schema_fields)"

text \<open>
  The list comprehension \<open>[g(document[field]) for field in fields]\<close>: the first absent field
  raises.
\<close>

fun getitems :: "(string \<Rightarrow> 'b) \<Rightarrow> document \<Rightarrow> string list \<Rightarrow> error + 'b list" where
  "getitems g document [] = Inr []"
| "getitems g document (field # schema_fields) =
     (case getitem document field of
        Inl e \<Rightarrow> Inl e
      | Inr v \<Rightarrow> and_then (getitems g document schema_fields) (\<lambda>vs. Inr (g v # vs)))"

definition JobCategoryCorpusCreator_transform :: "'a corpus_creator_scheme \<Rightarrow> document \<Rightarrow> error + corpus_unit" where
  "JobCategoryCorpusCreator_transform self document =
     and_then (self_document_schema_fields self)
       (\<lambda>schema_fields. and_then (getitems (lowercase_strip_punc (nlp self)) document schema_fields)
          (\<lambda>vs. Inr (Str (join_spaces vs))))"

definition JobCategoryCorpusCreator_iter :: "'a corpus_creator_scheme \<Rightarrow> corpus_unit list \<times> error option" where
  "JobCategoryCorpusCreator_iter = CorpusCreator_iter JobCategoryCorpusCreator_transform"

subsection \<open>Doc2VecGensimCorpusCreator\<close>

text \<open>
  Modelled from the spec: \<open>safe_get\<close> of \<open>skills_utils.common\<close>, which is not part of the sources
  at hand. Given a mapping and a key it returns the value, or a defined default (Python's
  \<open>None\<close>) without raising. The corpus creators call it as \<open>safe_get(document, *self.key)\<close>
  with the one-element list \<open>self.key\<close>; the spec says nothing about other numbers of keys, for
  which the default is returned here.
\<close>

fun safe_get :: "document \<Rightarrow> string list \<Rightarrow> string option" where
  "safe_get container [name] = container name"
| "safe_get container names = None"

text \<open>
  \<open>__init__\<close>: the base initialiser, then \<open>self.lookup = {}\<close>; the conditional that follows
  tests the dict just created, so it assigns \<open>self.k = 0\<close>.
\<close>

definition Doc2VecGensimCorpusCreator_new ::
  "nlp_transforms \<Rightarrow> document list \<Rightarrow> string list \<Rightarrow> bool \<Rightarrow> doc2vec_gensim_corpus_creator" where
  "Doc2VecGensimCorpusCreator_new transforms generator schema_fields raw_flag =
     corpus_creator.extend (CorpusCreator_init None transforms generator schema_fields raw_flag)
       (doc2vec_gensim_corpus_creator.fields Map.empty 0)"

definition Doc2VecGensimCorpusCreator_clean ::
  "'a doc2vec_gensim_corpus_creator_scheme \<Rightarrow> document \<Rightarrow> error + string" where
  "Doc2VecGensimCorpusCreator_clean self document =
     and_then (self_document_schema_fields self)
       (\<lambda>schema_fields. and_then (getitems (clean_str (nlp self)) document schema_fields)
          (\<lambda>vs. Inr (join_spaces vs)))"

definition Doc2VecGensimCorpusCreator_transform ::
  "'a doc2vec_gensim_corpus_creator_scheme \<Rightarrow> document \<Rightarrow> error + tagged_document" where
  "Doc2VecGensimCorpusCreator_transform self document =
     and_then (Doc2VecGensimCorpusCreator_clean self document)
       (\<lambda>cleaned. Inr \<lparr>words = str_split cleaned, tags = [k self]\<rparr>)"

text \<open>
  \<open>__iter__\<close> is a generator whose effects on \<open>self\<close> the caller can observe between two
  items, so it is modelled as a generator object that is resumed by \<open>next\<close>: the object, where
  the generator's frame stands (not started, suspended at the \<open>yield\<close>, or finished), and what
  is left of the source.
\<close>

datatype frame = Created | Suspended | Finished

datatype 'u next_result = Yield 'u | StopIteration | Raise error

record 's generator =
  gen_self :: 's
  gen_frame :: frame
  gen_source :: "document list"

definition Doc2VecGensimCorpusCreator_iter ::
  "'a doc2vec_gensim_corpus_creator_scheme \<Rightarrow> 'a doc2vec_gensim_corpus_creator_scheme generator" where
  "Doc2VecGensimCorpusCreator_iter self =
     \<lparr>gen_self = self, gen_frame = Created, gen_source = job_posting_generator self\<rparr>"

text \<open>
  One \<open>next\<close>: a suspended frame first runs \<open>self.k += 1\<close>, the statement after the \<open>yield\<close>;
  then the loop takes the next document, writes \<open>self.lookup[self.k]\<close> and yields the
  transformed document. An exception of \<open>self._transform\<close> finishes the generator.
  \<open>self_transform\<close> is the \<open>_transform\<close> of the object's class.
\<close>

definition Doc2VecGensimCorpusCreator_next ::
  "('a doc2vec_gensim_corpus_creator_scheme \<Rightarrow> document \<Rightarrow> error + tagged_document) \<Rightarrow>
   'a doc2vec_gensim_corpus_creator_scheme generator \<Rightarrow>
   tagged_document next_result \<times> 'a doc2vec_gensim_corpus_creator_scheme generator" where
  "Doc2VecGensimCorpusCreator_next self_transform g =
     (if gen_frame g = Finished then (StopIteration, g)
      else
        let self1 = (if gen_frame g = Suspended then (gen_self g)\<lparr>k := k (gen_self g) + 1\<rparr>
                     else gen_self g)
        in case gen_source g of
             [] \<Rightarrow> (StopIteration, g\<lparr>gen_self := self1, gen_frame := Finished\<rparr>)
           | document # rest \<Rightarrow>
               (let self2 = self1\<lparr>lookup := (lookup self1)(k self1 \<mapsto> safe_get document (key self1))\<rparr>
                in case self_transform self2 document of
                     Inl e \<Rightarrow> (Raise e, \<lparr>gen_self = self2, gen_frame = Finished, gen_source = rest\<rparr>)
                   | Inr u \<Rightarrow> (Yield u, \<lparr>gen_self = self2, gen_frame = Suspended, gen_source = rest\<rparr>)))"

text \<open>The results of \<open>n\<close> successive calls of \<open>next\<close>, and the generator after them.\<close>

fun nexts ::
  "('s generator \<Rightarrow> 'r \<times> 's generator) \<Rightarrow> nat \<Rightarrow> 's generator \<Rightarrow> 'r list \<times> 's generator" where
  "nexts step 0 g = ([], g)"
| "nexts step (Suc n) g =
     (case step g of
        (r, g') \<Rightarrow> (case nexts step n g' of (rs, g'') \<Rightarrow> (r # rs, g'')))"

subsection \<open>Word2VecGensimCorpusCreator\<close>

definition Word2VecGensimCorpusCreator_new ::
  "nlp_transforms \<Rightarrow> document list \<Rightarrow> string list \<Rightarrow> bool \<Rightarrow> corpus_creator" where
  "Word2VecGensimCorpusCreator_new = CorpusCreator_init None"

definition Word2VecGensimCorpusCreator_clean :: "'a corpus_creator_scheme \<Rightarrow> document \<Rightarrow> error + string" where
  "Word2VecGensimCorpusCreator_clean self document =
     and_then (self_document_schema_fields self)
       (\<lambda>schema_fields. and_then (getitems (clean_str (nlp self)) document schema_fields)
          (\<lambda>vs. Inr (join_spaces vs)))"

definition Word2VecGensimCorpusCreator_transform ::
  "'a corpus_creator_scheme \<Rightarrow> document \<Rightarrow> error + string list list" where
  "Word2VecGensimCorpusCreator_transform self document =
     (if raw self
      then and_then (CorpusCreator_join self document)
             (\<lambda>joined. Inr (map (word_tokenize (nlp self)) (sentence_tokenize (nlp self) joined)))
      else and_then (Word2VecGensimCorpusCreator_clean self document)
             (\<lambda>cleaned. Inr (map (word_tokenize (nlp self)) (sentence_tokenize (nlp self) cleaned))))"

subsection \<open>SectionExtractCorpusCreator\<close>

text \<open>\<open>__init__(section_regex, *args, **kwargs)\<close>: the Doc2Vec initialiser, then the pattern.\<close>

definition SectionExtractCorpusCreator_new ::
  "(string \<Rightarrow> bool) \<Rightarrow> nlp_transforms \<Rightarrow> document list \<Rightarrow> string list \<Rightarrow> bool \<Rightarrow>
   section_extract_corpus_creator" where
  "SectionExtractCorpusCreator_new pattern transforms generator schema_fields raw_flag =
     doc2vec_gensim_corpus_creator.extend
       (Doc2VecGensimCorpusCreator_new transforms generator schema_fields raw_flag)
       (section_extract_corpus_creator.fields pattern)"

section \<open>IterablePipeline\<close>

text \<open>
  An item of a sequence is \<open>Some x\<close>, or \<open>None\<close> for Python's \<open>None\<close>. A stage function is applied
  to items other than \<open>None\<close> and returns an item. A source sequence is a finite list; a
  generator is the list of the items it yields.
\<close>

fun func2gen :: "('a \<Rightarrow> 'a option) \<Rightarrow> 'a option list \<Rightarrow> 'a option list" where
  "func2gen func [] = []"
| "func2gen func (None # items) = func2gen func items"
| "func2gen func (Some x # items) = func x # func2gen func items"

definition IterablePipeline_generators ::
  "('a \<Rightarrow> 'a option) list \<Rightarrow> ('a option list \<Rightarrow> 'a option list) list" where
  "IterablePipeline_generators functions = map func2gen functions"

text \<open>\<open>reduce(lambda f, g: lambda x: g(f(x)), self._generators, lambda x: x)\<close>.\<close>

definition IterablePipeline_compose ::
  "('a \<Rightarrow> 'a option) list \<Rightarrow> 'a option list \<Rightarrow> 'a option list" where
  "IterablePipeline_compose functions =
     foldl (\<lambda>f g. (\<lambda>x. g (f x))) (\<lambda>x. x) (IterablePipeline_generators functions)"

definition IterablePipeline_build ::
  "('a \<Rightarrow> 'a option) list \<Rightarrow> 'a option list \<Rightarrow> 'a option list" where
  "IterablePipeline_build functions source_data_generator =
     IterablePipeline_compose functions source_data_generator"

text \<open>
  The item-level reading of a pipeline, stated apart from the code for comparison with it: an
  item passes through the stages in order and is dropped as soon as it is \<open>None\<close>.
\<close>

definition through_stages :: "('a \<Rightarrow> 'a option) list \<Rightarrow> 'a option \<Rightarrow> 'a option" where
  "through_stages stages item = foldl Option.bind item stages"

section \<open>A concrete text transform library for examples\<close>

text \<open>
  Modelled from the spec: the lowercase + punctuation stripper of the text transform library,
  which is not part of the sources at hand, on ASCII letters and ASCII punctuation. The examples
  below are evaluated with it; the general theorems hold for every library.
\<close>

definition ascii_lower :: "char \<Rightarrow> char" where
  "ascii_lower c =
     (case map_of (zip ''ABCDEFGHIJKLMNOPQRSTUVWXYZ'' ''abcdefghijklmnopqrstuvwxyz'') c of
        None \<Rightarrow> c
      | Some l \<Rightarrow> l)"

definition ascii_punctuation :: "char list" where
  "ascii_punctuation =
     [CHR 0x21, CHR 0x22, CHR 0x23, CHR 0x24, CHR 0x25, CHR 0x26, CHR 0x27, CHR 0x28, CHR 0x29,
      CHR 0x2A, CHR 0x2B, CHR 0x2C, CHR 0x2D, CHR 0x2E, CHR 0x2F, CHR 0x3A, CHR 0x3B, CHR 0x3C,
      CHR 0x3D, CHR 0x3E, CHR 0x3F, CHR 0x40, CHR 0x5B, CHR 0x5C, CHR 0x5D, CHR 0x5E, CHR 0x5F,
      CHR 0x60, CHR 0x7B, CHR 0x7C, CHR 0x7D, CHR 0x7E]"

definition ascii_lowercase_strip_punc :: "string \<Rightarrow> string" where
  "ascii_lowercase_strip_punc text = filter (\<lambda>c. c \<notin> set ascii_punctuation) (map ascii_lower text)"

definition sample_nlp :: nlp_transforms where
  "sample_nlp =
     \<lparr>clean_html = (\<lambda>s. s),
      lowercase_strip_punc = ascii_lowercase_strip_punc,
      clean_str = ascii_lowercase_strip_punc,
      sentence_tokenize = (\<lambda>s. [s]),
      word_tokenize = str_split\<rparr>"

section \<open>Closed forms used in the proofs\<close>

text \<open>
  The state of a Doc2Vec generator after \<open>n\<close> documents have been yielded, written out: the
  lookup holds the keys \<open>0\<close> to \<open>n - 1\<close>, the counter is the tag of the last unit yielded.
\<close>

definition lookup_after :: "document list \<Rightarrow> nat \<Rightarrow> int \<rightharpoonup> string option" where
  "lookup_after docs n =
     (\<lambda>x. if 0 \<le> x \<and> x < int n then Some (safe_get (docs ! nat x) [''onet_soc_code''])
          else None)"

definition generator_after ::
  "nlp_transforms \<Rightarrow> document list \<Rightarrow> string list \<Rightarrow> bool \<Rightarrow> nat \<Rightarrow>
   doc2vec_gensim_corpus_creator generator" where
  "generator_after transforms docs schema_fields raw_flag n =
     \<lparr>gen_self = (Doc2VecGensimCorpusCreator_new transforms docs schema_fields raw_flag)
          \<lparr>lookup := lookup_after docs n, k := int n - (if n = 0 then 0 else 1)\<rparr>,
      gen_frame = (if n = 0 then Created else Suspended),
      gen_source = drop n docs\<rparr>"

definition yielded_unit :: "nlp_transforms \<Rightarrow> document list \<Rightarrow> string list \<Rightarrow> nat \<Rightarrow> tagged_document next_result" where
  "yielded_unit transforms docs schema_fields j =
     Yield \<lparr>words = str_split (join_spaces
               (map (\<lambda>f. clean_str transforms (get_default (docs ! j) f [])) schema_fields)),
            tags = [int j]\<rparr>"


text \<open>Two postings for the examples; the second has no \<open>onet_soc_code\<close>.\<close>

definition sample_postings :: "document list" where
  "sample_postings =
     [[''description'' \<mapsto> ''Hello, World!'', ''onet_soc_code'' \<mapsto> ''11-1011.00''],
      [''description'' \<mapsto> ''Cares'']]"

section \<open>Properties of the section extractor\<close>

lemmas string_ops =
  str_split_sep_def str_split_def str_strip_def startswith_def endswith_def str_replace_def
  isspace_def

lemmas object_defs =
  SectionExtractCorpusCreator_new_def Doc2VecGensimCorpusCreator_new_def CorpusCreator_init_def
  corpus_creator.defs doc2vec_gensim_corpus_creator.defs section_extract_corpus_creator.defs

text \<open>
  C9. For a document whose description is the text
  "Intro, blank line, Requirements:, - Must code, - Must test, blank line, Benefits:, - Gym"
  (one line each) and a pattern that matches the heading "Requirements:" (and neither the
  heading "Benefits:" nor the empty initial heading), the transform produces exactly the tokens
  Must, code, Must, test, with the counter as tag: nothing under "Benefits:" is included.
\<close>

theorem section_extract_requirements_example:
  assumes "document ''description'' =
             Some ''Intro\<newline>\<newline>Requirements:\<newline>- Must code\<newline>- Must test\<newline>\<newline>Benefits:\<newline>- Gym''"
      and "section_regex self ''Requirements:''"
      and "\<not> section_regex self ''Benefits:''"
      and "\<not> section_regex self []"
    shows "SectionExtractCorpusCreator_transform self document =
             Inr \<lparr>words = [''Must'', ''code'', ''Must'', ''test''], tags = [k self]\<rparr>"
  using assms
  by (simp add: SectionExtractCorpusCreator_transform_def getitem_def heading_like_def
      strip_bullet_chars_def string_ops)

theorem section_extract_requirements_example_witness:
  "SectionExtractCorpusCreator_transform
     (SectionExtractCorpusCreator_new (re_match_literal ''Requirements'') sample_nlp []
        [''description''] False)
     [''description'' \<mapsto>
        ''Intro\<newline>\<newline>Requirements:\<newline>- Must code\<newline>- Must test\<newline>\<newline>Benefits:\<newline>- Gym'']
   = Inr \<lparr>words = [''Must'', ''code'', ''Must'', ''test''], tags = [0]\<rparr>"
  using section_extract_requirements_example
    [of "[''description'' \<mapsto>
           ''Intro\<newline>\<newline>Requirements:\<newline>- Must code\<newline>- Must test\<newline>\<newline>Benefits:\<newline>- Gym'']"
        "SectionExtractCorpusCreator_new (re_match_literal ''Requirements'') sample_nlp []
           [''description''] False"]
  by (simp add: object_defs re_match_literal_def startswith_def)

text \<open>
  C6. The code at the claim's own example: under a matching heading the content line
  "- foo - bar" contributes the tokens foo, bar. \<open>line.replace\<close> removes every occurrence of
  the marker "- ", not only the leading one, so the token "-" the claim expects is lost.
\<close>

theorem bullet_replace_removes_every_marker:
  "str_split (strip_bullet_chars ''- foo - bar'') = [''foo'', ''bar''] \<and>
   SectionExtractCorpusCreator_transform
     (SectionExtractCorpusCreator_new (re_match_literal ''Requirements'') transforms generator
        schema_fields raw_flag)
     [''description'' \<mapsto> ''\<newline>Requirements:\<newline>- foo - bar'']
   = Inr \<lparr>words = [''foo'', ''bar''], tags = [0]\<rparr>"
  by (simp add: SectionExtractCorpusCreator_transform_def getitem_def heading_like_def
      strip_bullet_chars_def string_ops object_defs re_match_literal_def)

section \<open>Properties of the pipeline\<close>

lemma func2gen_map_filter:
  "func2gen func items = map func (List.map_filter (\<lambda>item. item) items)"
  by (induction func items rule: func2gen.induct) (simp_all add: List.map_filter_simps)

lemma compose_snoc:
  "IterablePipeline_compose (stages @ [func]) source =
     func2gen func (IterablePipeline_compose stages source)"
  by (simp add: IterablePipeline_compose_def IterablePipeline_generators_def)

lemma through_stages_snoc:
  "through_stages (stages @ [func]) item = Option.bind (through_stages stages item) func"
  by (simp add: through_stages_def)

lemma map_filter_after_stage:
  "List.map_filter (\<lambda>item. item) (map func (List.map_filter g xs)) =
     List.map_filter (\<lambda>x. Option.bind (g x) func) xs"
  by (induction xs) (auto simp: List.map_filter_simps split: option.splits)

lemma compose_items:
  "List.map_filter (\<lambda>item. item) (IterablePipeline_compose stages source) =
     List.map_filter (through_stages stages) source"
proof (induction stages rule: rev_induct)
  case Nil
  show ?case
    by (simp add: IterablePipeline_compose_def IterablePipeline_generators_def through_stages_def)
next
  case (snoc func stages)
  show ?case
    by (simp add: compose_snoc func2gen_map_filter snoc.IH map_filter_after_stage
        through_stages_snoc)
qed

text \<open>
  C4, as the code has it: a pipeline of zero stages is the identity, so building it over a
  source yields the source unchanged, items equal to \<open>None\<close> included.
\<close>

theorem zero_stage_pipeline_is_identity:
  "IterablePipeline_build [] source = source"
  by (simp add: IterablePipeline_build_def IterablePipeline_compose_def
      IterablePipeline_generators_def)

text \<open>
  C4 as stated fails: over the source \<open>[1, None]\<close> the zero-stage pipeline does not yield the
  source without its \<open>None\<close> items; its output still contains \<open>None\<close>.
\<close>

theorem zero_stage_pipeline_keeps_none:
  "IterablePipeline_build [] [Some (1::int), None]
     \<noteq> filter (\<lambda>item. item \<noteq> None) [Some 1, None] \<and>
   None \<in> set (IterablePipeline_build [] [Some (1::int), None])"
  by (simp add: IterablePipeline_build_def IterablePipeline_compose_def
      IterablePipeline_generators_def)

text \<open>
  C7, as the code has it: in a pipeline of one or more stages an item is dropped when it is
  \<open>None\<close> in the source or when a stage before the last returns \<open>None\<close> for it; every item that
  reaches the last stage gives exactly one output item, the last stage's result, also when that
  result is \<open>None\<close>.
\<close>

theorem pipeline_drops_none_before_last_stage:
  "IterablePipeline_build (stages @ [last_stage]) source =
     map last_stage (List.map_filter (through_stages stages) source)"
  by (simp add: IterablePipeline_build_def compose_snoc func2gen_map_filter compose_items)

text \<open>
  C7 as stated fails when the stage returning \<open>None\<close> is the last one: the one-stage pipeline
  whose stage maps every item to \<open>None\<close>, built over the source \<open>[1]\<close>, yields the item \<open>None\<close>.
\<close>

theorem last_stage_none_is_yielded:
  "(\<lambda>x::int. None) 1 = None \<and>
   IterablePipeline_build [\<lambda>x::int. None] [Some 1] = [None] \<and>
   IterablePipeline_build [\<lambda>x::int. None] [Some 1] \<noteq> []"
  by (simp add: IterablePipeline_build_def IterablePipeline_compose_def
      IterablePipeline_generators_def)

section \<open>Properties of the corpus creators\<close>

lemma lsp_hello: "ascii_lowercase_strip_punc ''Hello, World!'' = ''hello world''"
  by (simp add: ascii_lowercase_strip_punc_def ascii_lower_def ascii_punctuation_def)

lemma lsp_cares: "ascii_lowercase_strip_punc ''Cares'' = ''cares''"
  by (simp add: ascii_lowercase_strip_punc_def ascii_lower_def ascii_punctuation_def)

lemma lsp_nurse: "ascii_lowercase_strip_punc ''Nurse'' = ''nurse''"
  by (simp add: ascii_lowercase_strip_punc_def ascii_lower_def ascii_punctuation_def)

lemma sample_nlp_lsp: "lowercase_strip_punc sample_nlp = ascii_lowercase_strip_punc"
  by (simp add: sample_nlp_def)

lemma sample_nlp_clean_str: "clean_str sample_nlp = ascii_lowercase_strip_punc"
  by (simp add: sample_nlp_def)

text \<open>
  C1. The code at a posting that lacks a configured field: the projection of the posting
  \<open>{'description': 'x'}\<close> onto the fields description, skills raises \<open>KeyError('skills')\<close>, and
  so the iteration of the base corpus creator yields nothing and raises, whatever the raw flag.
  The claim says the missing field becomes absent and the projection never fails.
\<close>

theorem projection_raises_on_missing_field:
  "project [''description'', ''skills''] [''description'' \<mapsto> ''x''] = Inl (KeyError ''skills'') \<and>
   CorpusCreator_self_iter
     (CorpusCreator_new transforms [[''description'' \<mapsto> ''x'']] [''description'', ''skills'']
        raw_flag)
   = ([], Some (KeyError ''skills''))"
  by (simp add: project_def getitem_def CorpusCreator_self_iter_def CorpusCreator_iter_def
      CorpusCreator_new_def CorpusCreator_init_def self_document_schema_fields_def)

lemma project_onto_present:
  "\<forall>f\<in>set fs. document f \<noteq> None \<Longrightarrow>
   project_onto acc document fs = Inr (\<lambda>x. if x \<in> set fs then document x else acc x)"
proof (induction fs arbitrary: acc)
  case Nil
  then show ?case by simp
next
  case (Cons f fs)
  then obtain v where v: "document f = Some v" by auto
  have "project_onto (acc(f \<mapsto> v)) document fs =
          Inr (\<lambda>x. if x \<in> set fs then document x else (acc(f \<mapsto> v)) x)"
    using Cons by simp
  then show ?case using v by (auto simp: getitem_def fun_eq_iff)
qed

lemma project_present:
  "\<forall>f\<in>set fs. document f \<noteq> None \<Longrightarrow>
   project fs document = Inr (\<lambda>x. if x \<in> set fs then document x else None)"
  by (simp add: project_def project_onto_present)

lemma join_raw_projected:
  "join_spaces (map (\<lambda>f. get_default (\<lambda>x. if x \<in> set fs then d x else None) f []) fs)
     = join_spaces (map (\<lambda>f. get_default d f []) fs)"
  by (rule arg_cong[where f = join_spaces]) (simp add: get_default_def)

lemma join_clean_projected:
  "join_spaces (map (\<lambda>f. g (get_default (\<lambda>x. if x \<in> set fs then d x else None) f [])) fs)
     = join_spaces (map (\<lambda>f. g (get_default d f [])) fs)"
  by (rule arg_cong[where f = join_spaces]) (simp add: get_default_def)

lemma simple_transform_projected:
  assumes "document_schema_fields self = Some fs"
  shows "SimpleCorpusCreator_transform self (\<lambda>x. if x \<in> set fs then d x else None) =
           Inr (Str (join_spaces (map (\<lambda>f.
                  if raw self then get_default d f []
                  else lowercase_strip_punc (nlp self) (get_default d f [])) fs)))"
proof (cases "raw self")
  case True
  then show ?thesis
    by (simp add: SimpleCorpusCreator_transform_def CorpusCreator_transform_def
        CorpusCreator_join_def self_document_schema_fields_def assms join_raw_projected)
next
  case False
  then show ?thesis
    by (simp add: SimpleCorpusCreator_transform_def CorpusCreator_transform_def
        SimpleCorpusCreator_clean_def self_document_schema_fields_def assms join_clean_projected)
qed

lemma simple_iter_from:
  assumes "\<forall>document\<in>set docs. \<forall>f\<in>set fs. document f \<noteq> None"
      and "document_schema_fields self = Some fs"
  shows "CorpusCreator_iter_from SimpleCorpusCreator_transform self docs =
           (map (\<lambda>document. Str (join_spaces (map (\<lambda>f.
                   if raw self then get_default document f []
                   else lowercase_strip_punc (nlp self) (get_default document f [])) fs))) docs,
            None)"
  using assms(1)
proof (induction docs)
  case Nil
  then show ?case by simp
next
  case (Cons d docs)
  have p: "project fs d = Inr (\<lambda>x. if x \<in> set fs then d x else None)"
    using Cons.prems by (simp add: project_present)
  have ih: "CorpusCreator_iter_from SimpleCorpusCreator_transform self docs =
           (map (\<lambda>document. Str (join_spaces (map (\<lambda>f.
                   if raw self then get_default document f []
                   else lowercase_strip_punc (nlp self) (get_default document f [])) fs))) docs,
            None)"
    using Cons by simp
  show ?case
    by (simp add: self_document_schema_fields_def assms(2) p
        simple_transform_projected[OF assms(2)] ih)
qed

text \<open>
  C2, as the code has it: the Simple variant honours the raw flag. Over postings that have
  every configured field it yields one string per posting: with \<open>raw=False\<close> the space-joined
  lowercased, punctuation-stripped field values, with \<open>raw=True\<close> the space-joined raw field
  values, which are not lowercased or stripped.
\<close>

theorem simple_corpus_creator_honours_raw_flag:
  assumes "\<forall>document\<in>set generator. \<forall>f\<in>set schema_fields. document f \<noteq> None"
  shows "SimpleCorpusCreator_iter
           (SimpleCorpusCreator_new transforms generator schema_fields raw_flag) =
           (map (\<lambda>document. Str (join_spaces (map (\<lambda>f.
                   if raw_flag then get_default document f []
                   else lowercase_strip_punc transforms (get_default document f []))
                 schema_fields)))
              generator, None)"
proof -
  let ?self = "SimpleCorpusCreator_new transforms generator schema_fields raw_flag"
  have a: "document_schema_fields ?self = Some schema_fields"
    by (simp add: SimpleCorpusCreator_new_def CorpusCreator_init_def)
  have b: "raw ?self = raw_flag" "nlp ?self = transforms"
    "job_posting_generator ?self = generator"
    by (simp_all add: SimpleCorpusCreator_new_def CorpusCreator_init_def)
  show ?thesis
    unfolding SimpleCorpusCreator_iter_def CorpusCreator_iter_def
    using simple_iter_from[OF assms a] by (simp only: b)
qed

theorem simple_corpus_creator_honours_raw_flag_witness:
  "SimpleCorpusCreator_iter
     (SimpleCorpusCreator_new sample_nlp [[''description'' \<mapsto> ''Hello, World!'']]
        [''description''] True)
   = ([Str ''Hello, World!''], None) \<and>
   SimpleCorpusCreator_iter
     (SimpleCorpusCreator_new sample_nlp [[''description'' \<mapsto> ''Hello, World!'']]
        [''description''] False)
   = ([Str ''hello world''], None)"
  using simple_corpus_creator_honours_raw_flag
          [of "[[''description'' \<mapsto> ''Hello, World!'']]" "[''description'']" sample_nlp True]
        simple_corpus_creator_honours_raw_flag
          [of "[[''description'' \<mapsto> ''Hello, World!'']]" "[''description'']" sample_nlp False]
  by (simp add: get_default_def sample_nlp_lsp lsp_hello)

text \<open>
  C2 as stated fails: over the posting \<open>{'description': 'Hello, World!'}\<close> the Simple variant
  constructed with \<open>raw=True\<close> does not yield what the one constructed with \<open>raw=False\<close> yields.
\<close>

theorem simple_raw_differs_from_clean:
  "SimpleCorpusCreator_iter
     (SimpleCorpusCreator_new sample_nlp [[''description'' \<mapsto> ''Hello, World!'']]
        [''description''] True)
   \<noteq>
   SimpleCorpusCreator_iter
     (SimpleCorpusCreator_new sample_nlp [[''description'' \<mapsto> ''Hello, World!'']]
        [''description''] False)"
  by (simp add: SimpleCorpusCreator_iter_def CorpusCreator_iter_def
      SimpleCorpusCreator_transform_def CorpusCreator_transform_def CorpusCreator_join_def
      SimpleCorpusCreator_clean_def SimpleCorpusCreator_new_def CorpusCreator_init_def
      self_document_schema_fields_def project_def getitem_def get_default_def sample_nlp_lsp
      lsp_hello)

text \<open>
  C3. The code at a Category-label creator constructed with a field list: the instance
  attribute set by \<open>__init__\<close> hides the class attribute, so with
  \<open>document_schema_fields=['description']\<close> the output for the posting
  \<open>{'occupationalCategory': 'Nurse', 'description': 'Cares'}\<close> comes from description, not from
  occupationalCategory; with the default field list a posting that has only
  occupationalCategory raises \<open>KeyError('description')\<close>. The claim says the output comes from
  occupationalCategory whatever the field list.
\<close>

theorem job_category_uses_configured_fields:
  "JobCategoryCorpusCreator_iter
     (JobCategoryCorpusCreator_new sample_nlp
        [[''occupationalCategory'' \<mapsto> ''Nurse'', ''description'' \<mapsto> ''Cares'']]
        [''description''] False)
   = ([Str ''cares''], None) \<and>
   JobCategoryCorpusCreator_iter
     (JobCategoryCorpusCreator_new sample_nlp
        [[''occupationalCategory'' \<mapsto> ''Nurse'', ''description'' \<mapsto> ''Cares'']]
        [''occupationalCategory''] False)
   = ([Str ''nurse''], None) \<and>
   JobCategoryCorpusCreator_iter
     (JobCategoryCorpusCreator_new sample_nlp
        [[''occupationalCategory'' \<mapsto> ''Nurse'']]
        default_document_schema_fields False)
   = ([], Some (KeyError ''description''))"
  by (simp add: JobCategoryCorpusCreator_iter_def CorpusCreator_iter_def
      JobCategoryCorpusCreator_new_def CorpusCreator_init_def self_document_schema_fields_def
      project_def getitem_def JobCategoryCorpusCreator_transform_def sample_nlp_lsp lsp_cares
      lsp_nurse default_document_schema_fields_def)

section \<open>Strict and tolerant cleaning\<close>

lemma clean_field_dom: "(clean_field transforms document f x = None) = (document x = None)"
  by (simp add: clean_field_def getitem_def Let_def split: option.splits)

lemma foldl_clean_field_dom:
  "(foldl (clean_field transforms) document fs x = None) = (document x = None)"
  by (induction fs arbitrary: document) (simp_all add: clean_field_dom)

lemma getitems_missing:
  "f \<in> set fs \<Longrightarrow> document f = None \<Longrightarrow>
   \<exists>missing\<in>set fs. document missing = None \<and> getitems g document fs = Inl (KeyError missing)"
proof (induction fs)
  case Nil
  then show ?case by simp
next
  case (Cons a fs)
  show ?case
  proof (cases "document a")
    case None
    then show ?thesis by (auto simp: getitem_def)
  next
    case (Some v)
    then have "f \<in> set fs" using Cons.prems by auto
    then obtain missing where "missing \<in> set fs" "document missing = None"
      "getitems g document fs = Inl (KeyError missing)"
      using Cons by blast
    then show ?thesis using Some by (auto simp: getitem_def)
  qed
qed

lemma doc2vec_transform_raises:
  assumes "document_schema_fields self = Some fs"
      and "getitems (clean_str (nlp self)) document fs = Inl e"
  shows "Doc2VecGensimCorpusCreator_transform self document = Inl e"
  using assms
  by (simp add: Doc2VecGensimCorpusCreator_transform_def Doc2VecGensimCorpusCreator_clean_def
      self_document_schema_fields_def)

lemmas doc2vec_object =
  Doc2VecGensimCorpusCreator_new_def CorpusCreator_init_def
  corpus_creator.defs doc2vec_gensim_corpus_creator.defs

text \<open>
  C8. For a document that lacks a configured field: the clean transform of the base corpus
  creator does not raise and leaves the field absent; the clean transform of the Doc2Vec-style
  variant raises a \<open>KeyError\<close> for a configured field the document lacks, and the error reaches
  the caller through \<open>_transform\<close> and through the iteration; the clean transform of the
  Word2Vec-style variant raises the same error.
\<close>

theorem strict_vs_tolerant_missing_field:
  assumes "f \<in> set schema_fields" and "document f = None"
  shows "(\<exists>cleaned.
            CorpusCreator_clean (CorpusCreator_new transforms generator schema_fields raw_flag)
              document = Inr cleaned \<and> cleaned f = None) \<and>
         (\<exists>missing.
            missing \<in> set schema_fields \<and> document missing = None \<and>
            Doc2VecGensimCorpusCreator_clean
              (Doc2VecGensimCorpusCreator_new transforms generator schema_fields raw_flag)
              document = Inl (KeyError missing) \<and>
            Doc2VecGensimCorpusCreator_transform
              (Doc2VecGensimCorpusCreator_new transforms generator schema_fields raw_flag)
              document = Inl (KeyError missing) \<and>
            fst (Doc2VecGensimCorpusCreator_next Doc2VecGensimCorpusCreator_transform
                   (Doc2VecGensimCorpusCreator_iter
                      (Doc2VecGensimCorpusCreator_new transforms (document # generator)
                         schema_fields raw_flag)))
              = Raise (KeyError missing) \<and>
            Word2VecGensimCorpusCreator_clean
              (Word2VecGensimCorpusCreator_new transforms generator schema_fields raw_flag)
              document = Inl (KeyError missing))"
proof -
  have tolerant: "\<exists>cleaned.
            CorpusCreator_clean (CorpusCreator_new transforms generator schema_fields raw_flag)
              document = Inr cleaned \<and> cleaned f = None"
    using assms(2)
    by (simp add: CorpusCreator_clean_def CorpusCreator_new_def CorpusCreator_init_def
        self_document_schema_fields_def foldl_clean_field_dom)
  obtain missing where m: "missing \<in> set schema_fields" "document missing = None"
    "getitems (clean_str transforms) document schema_fields = Inl (KeyError missing)"
    using getitems_missing[of f schema_fields document "clean_str transforms"] assms by blast
  have c: "Doc2VecGensimCorpusCreator_clean
              (Doc2VecGensimCorpusCreator_new transforms gen schema_fields raw_flag)
              document = Inl (KeyError missing)" for gen
    by (simp add: Doc2VecGensimCorpusCreator_clean_def doc2vec_object
        self_document_schema_fields_def m(3))
  have t: "Doc2VecGensimCorpusCreator_transform
              (Doc2VecGensimCorpusCreator_new transforms gen schema_fields raw_flag)
              document = Inl (KeyError missing)" for gen
    by (simp add: Doc2VecGensimCorpusCreator_transform_def c)
  have n: "fst (Doc2VecGensimCorpusCreator_next Doc2VecGensimCorpusCreator_transform
                   (Doc2VecGensimCorpusCreator_iter
                      (Doc2VecGensimCorpusCreator_new transforms (document # generator)
                         schema_fields raw_flag)))
              = Raise (KeyError missing)"
    by (simp add: Doc2VecGensimCorpusCreator_next_def Doc2VecGensimCorpusCreator_iter_def
        doc2vec_object Let_def doc2vec_transform_raises[where fs = schema_fields] m(3))
  have w: "Word2VecGensimCorpusCreator_clean
              (Word2VecGensimCorpusCreator_new transforms generator schema_fields raw_flag)
              document = Inl (KeyError missing)"
    by (simp add: Word2VecGensimCorpusCreator_clean_def Word2VecGensimCorpusCreator_new_def
        CorpusCreator_init_def self_document_schema_fields_def m(3))
  show ?thesis using tolerant m(1,2) c t n w by blast
qed

theorem strict_vs_tolerant_missing_field_witness:
  "(\<exists>cleaned.
      CorpusCreator_clean (CorpusCreator_new sample_nlp [] default_document_schema_fields False)
        [''description'' \<mapsto> ''Cares''] = Inr cleaned \<and> cleaned ''qualifications'' = None) \<and>
   (\<exists>missing.
      Doc2VecGensimCorpusCreator_clean
        (Doc2VecGensimCorpusCreator_new sample_nlp [] default_document_schema_fields False)
        [''description'' \<mapsto> ''Cares''] = Inl (KeyError missing) \<and>
      Word2VecGensimCorpusCreator_clean
        (Word2VecGensimCorpusCreator_new sample_nlp [] default_document_schema_fields False)
        [''description'' \<mapsto> ''Cares''] = Inl (KeyError missing))"
proof -
  have h1: "''qualifications'' \<in> set default_document_schema_fields"
    by (simp add: default_document_schema_fields_def)
  have h2: "[''description'' \<mapsto> ''Cares''] ''qualifications'' = None"
    by simp
  show ?thesis
    using h1 h2
      strict_vs_tolerant_missing_field
        [where f = "''qualifications''" and schema_fields = default_document_schema_fields
           and document = "[''description'' \<mapsto> ''Cares'']" and transforms = sample_nlp
           and generator = "[]" and raw_flag = False]
    by blast
qed

section \<open>The counter and the lookup of the Doc2Vec generator\<close>

lemma nexts_Suc_end:
  "nexts step (Suc n) g =
     (case nexts step n g of (rs, g') \<Rightarrow> (case step g' of (r, g'') \<Rightarrow> (rs @ [r], g'')))"
proof (induction n arbitrary: g)
  case 0
  show ?case by (simp split: prod.splits)
next
  case (Suc n)
  obtain r g1 where s: "step g = (r, g1)" by force
  obtain rs g2 where n: "nexts step n g1 = (rs, g2)" by force
  obtain r2 g3 where s2: "step g2 = (r2, g3)" by force
  have a: "nexts step (Suc n) g1 = (rs @ [r2], g3)"
    by (simp only: Suc.IH n s2 prod.case)
  have b: "nexts step (Suc n) g = (r # rs, g2)"
    by (simp add: s n)
  have c: "nexts step (Suc (Suc n)) g = (r # rs @ [r2], g3)"
    by (simp only: nexts.simps(2)[of step "Suc n"] s a prod.case)
  show ?case
    by (simp only: c b s2 prod.case append_Cons)
qed

lemma getitems_present:
  "\<forall>f\<in>set fs. document f \<noteq> None \<Longrightarrow>
   getitems g document fs = Inr (map (\<lambda>f. g (get_default document f [])) fs)"
  by (induction fs) (auto simp: getitem_def get_default_def)

lemma doc2vec_transform_yields:
  assumes "document_schema_fields self = Some fs"
      and "\<forall>f\<in>set fs. document f \<noteq> None"
  shows "Doc2VecGensimCorpusCreator_transform self document =
           Inr \<lparr>words = str_split (join_spaces
                   (map (\<lambda>f. clean_str (nlp self) (get_default document f [])) fs)),
                tags = [k self]\<rparr>"
  using assms
  by (simp add: Doc2VecGensimCorpusCreator_transform_def Doc2VecGensimCorpusCreator_clean_def
      self_document_schema_fields_def getitems_present)

lemma lookup_after_Suc:
  "(lookup_after docs n)(int n \<mapsto> (docs ! n) ''onet_soc_code'') = lookup_after docs (Suc n)"
  by (auto simp: lookup_after_def fun_eq_iff)

lemma lookup_after_Suc_0:
  "(lookup_after docs 0)(0 \<mapsto> (docs ! 0) ''onet_soc_code'') = lookup_after docs (Suc 0)"
  by (auto simp: lookup_after_def fun_eq_iff)

lemma lookup_after_0: "lookup_after docs 0 = Map.empty"
  by (auto simp: lookup_after_def fun_eq_iff)

lemma generator_after_0:
  "generator_after transforms docs schema_fields raw_flag 0 =
     Doc2VecGensimCorpusCreator_iter
       (Doc2VecGensimCorpusCreator_new transforms docs schema_fields raw_flag)"
  by (simp add: generator_after_def Doc2VecGensimCorpusCreator_iter_def lookup_after_0
      doc2vec_object)

lemma doc2vec_next_step:
  assumes "n < length docs" and "\<forall>f\<in>set schema_fields. (docs ! n) f \<noteq> None"
  shows "Doc2VecGensimCorpusCreator_next Doc2VecGensimCorpusCreator_transform
           (generator_after transforms docs schema_fields raw_flag n) =
         (yielded_unit transforms docs schema_fields n,
          generator_after transforms docs schema_fields raw_flag (Suc n))"
proof -
  have src: "drop n docs = docs ! n # drop (Suc n) docs"
    using assms(1) by (simp add: Cons_nth_drop_Suc)
  show ?thesis
    using assms(2)
    by (simp add: Doc2VecGensimCorpusCreator_next_def generator_after_def src Let_def
        doc2vec_transform_yields[where fs = schema_fields] yielded_unit_def
        doc2vec_object lookup_after_Suc lookup_after_Suc_0)
qed

lemma doc2vec_nexts:
  assumes "n \<le> length docs" and "\<forall>j<n. \<forall>f\<in>set schema_fields. (docs ! j) f \<noteq> None"
  shows "nexts (Doc2VecGensimCorpusCreator_next Doc2VecGensimCorpusCreator_transform) n
           (generator_after transforms docs schema_fields raw_flag 0) =
         (map (yielded_unit transforms docs schema_fields) [0..<n],
          generator_after transforms docs schema_fields raw_flag n)"
  using assms
proof (induction n)
  case 0
  show ?case by simp
next
  case (Suc n)
  have ih: "nexts (Doc2VecGensimCorpusCreator_next Doc2VecGensimCorpusCreator_transform) n
           (generator_after transforms docs schema_fields raw_flag 0) =
         (map (yielded_unit transforms docs schema_fields) [0..<n],
          generator_after transforms docs schema_fields raw_flag n)"
    using Suc by simp
  have st: "Doc2VecGensimCorpusCreator_next Doc2VecGensimCorpusCreator_transform
           (generator_after transforms docs schema_fields raw_flag n) =
         (yielded_unit transforms docs schema_fields n,
          generator_after transforms docs schema_fields raw_flag (Suc n))"
    using Suc.prems by (intro doc2vec_next_step) auto
  show ?case
    by (simp only: nexts_Suc_end ih st prod.case upt_Suc_append[OF le0] map_append list.map)
qed

lemma doc2vec_next_resumes:
  "gen_frame g = Suspended \<Longrightarrow>
   k (gen_self (snd (Doc2VecGensimCorpusCreator_next self_transform g))) = k (gen_self g) + 1"
  by (simp add: Doc2VecGensimCorpusCreator_next_def Let_def split: list.splits sum.splits)

lemma length_nexts: "length (fst (nexts step n g)) = n"
proof (induction n arbitrary: g)
  case 0
  show ?case by simp
next
  case (Suc n)
  obtain r g1 where s: "step g = (r, g1)" by force
  obtain rs g2 where n: "nexts step n g1 = (rs, g2)" by force
  have "length rs = n" using Suc.IH[of g1] n by simp
  then show ?case by (simp add: s n)
qed

lemma doc2vec_transform_tags:
  "Doc2VecGensimCorpusCreator_transform self document = Inr u \<Longrightarrow> tags u = [k self]"
  by (cases "Doc2VecGensimCorpusCreator_clean self document")
     (auto simp: Doc2VecGensimCorpusCreator_transform_def)

lemma doc2vec_next_step_raise:
  assumes "n < length docs" and "f \<in> set schema_fields" and "(docs ! n) f = None"
  shows "\<exists>missing. Doc2VecGensimCorpusCreator_next Doc2VecGensimCorpusCreator_transform
           (generator_after transforms docs schema_fields raw_flag n) =
         (Raise (KeyError missing),
          \<lparr>gen_self = gen_self (generator_after transforms docs schema_fields raw_flag (Suc n)),
           gen_frame = Finished,
           gen_source = drop (Suc n) docs\<rparr>)"
proof -
  have src: "drop n docs = docs ! n # drop (Suc n) docs"
    using assms(1) by (simp add: Cons_nth_drop_Suc)
  obtain missing where
    m: "getitems (clean_str transforms) (docs ! n) schema_fields = Inl (KeyError missing)"
    using getitems_missing[of f schema_fields "docs ! n" "clean_str transforms"] assms(2,3)
    by blast
  have "Doc2VecGensimCorpusCreator_next Doc2VecGensimCorpusCreator_transform
           (generator_after transforms docs schema_fields raw_flag n) =
         (Raise (KeyError missing),
          \<lparr>gen_self = gen_self (generator_after transforms docs schema_fields raw_flag (Suc n)),
           gen_frame = Finished,
           gen_source = drop (Suc n) docs\<rparr>)"
    by (simp add: Doc2VecGensimCorpusCreator_next_def generator_after_def src Let_def
        doc2vec_transform_raises[where fs = schema_fields] m
        doc2vec_object lookup_after_Suc lookup_after_Suc_0)
  then show ?thesis by blast
qed

lemma doc2vec_next_finished:
  "gen_frame g = Finished \<Longrightarrow>
   Doc2VecGensimCorpusCreator_next self_transform g = (StopIteration, g)"
  by (simp add: Doc2VecGensimCorpusCreator_next_def)

lemma doc2vec_yields_need_fields:
  assumes "n \<le> length docs"
      and "\<forall>j<n. \<exists>u. fst (nexts (Doc2VecGensimCorpusCreator_next
                                    Doc2VecGensimCorpusCreator_transform) n
                 (generator_after transforms docs schema_fields raw_flag 0)) ! j = Yield u"
  shows "\<forall>j<n. \<forall>f\<in>set schema_fields. (docs ! j) f \<noteq> None"
  using assms
proof (induction n)
  case 0
  show ?case by simp
next
  case (Suc n)
  let ?step = "Doc2VecGensimCorpusCreator_next Doc2VecGensimCorpusCreator_transform"
  let ?G = "generator_after transforms docs schema_fields raw_flag"
  obtain rs g where n: "nexts ?step n (?G 0) = (rs, g)" by force
  obtain r g' where s: "?step g = (r, g')" by force
  have sn: "nexts ?step (Suc n) (?G 0) = (rs @ [r], g')"
    by (simp only: nexts_Suc_end n s prod.case)
  have len: "length rs = n"
    using length_nexts[of ?step n "?G 0"] n by simp
  have yields: "\<forall>j<Suc n. \<exists>u. (rs @ [r]) ! j = Yield u"
    using Suc.prems(2) sn by simp
  have "\<forall>j<n. \<exists>u. rs ! j = Yield u"
  proof (intro allI impI)
    fix j assume "j < n"
    then show "\<exists>u. rs ! j = Yield u"
      using yields[rule_format, of j] len by (simp add: nth_append)
  qed
  then have ih: "\<forall>j<n. \<forall>f\<in>set schema_fields. (docs ! j) f \<noteq> None"
    using Suc.IH Suc.prems(1) n by simp
  have gn: "g = ?G n"
    using doc2vec_nexts[of n docs schema_fields transforms raw_flag] ih Suc.prems(1) n by simp
  have last: "\<exists>u. r = Yield u"
    using yields[rule_format, of n] len by (simp add: nth_append)
  have "\<forall>f\<in>set schema_fields. (docs ! n) f \<noteq> None"
  proof (rule ccontr)
    assume "\<not> (\<forall>f\<in>set schema_fields. (docs ! n) f \<noteq> None)"
    then obtain f where "f \<in> set schema_fields" "(docs ! n) f = None" by blast
    then obtain missing where "fst (?step (?G n)) = Raise (KeyError missing)"
      using doc2vec_next_step_raise[of n docs f schema_fields transforms raw_flag] Suc.prems(1)
      by fastforce
    then show False using last s gn by simp
  qed
  then show ?case using ih by (auto simp: less_Suc_eq)
qed

text \<open>
  C5. A new Doc2Vec-style creator has counter 0. Iterate it once over a source and take an
  index \<open>i\<close> of the source. Every pull before the one numbered \<open>i\<close> yields a unit exactly when
  the documents before \<open>i\<close> have the configured fields; then the pull numbered \<open>i\<close> consumes
  document \<open>i\<close>, and:
  before that pull the lookup has no key \<open>i\<close>;
  after it the lookup maps every \<open>j\<close> up to \<open>i\<close> to the onet_soc_code of document \<open>j\<close>, and the
  counter is \<open>i\<close>;
  every unit yielded so far at position \<open>j\<close> has the tag \<open>[j]\<close>, so no tag is used twice;
  if document \<open>i\<close> has the configured fields, the pull yields its unit with tag exactly \<open>[i]\<close>,
  with the lookup entry already written, and the counter becomes \<open>i + 1\<close> only when the
  generator is resumed;
  if document \<open>i\<close> lacks a configured field, the pull raises \<open>KeyError\<close>, nothing is yielded and
  the counter is not incremented.
\<close>

theorem doc2vec_counter_lookup_invariant:
  assumes "i < length docs"
  shows "k (Doc2VecGensimCorpusCreator_new transforms docs schema_fields raw_flag) = 0 \<and>
    (let step = Doc2VecGensimCorpusCreator_next Doc2VecGensimCorpusCreator_transform;
         start = Doc2VecGensimCorpusCreator_iter
                   (Doc2VecGensimCorpusCreator_new transforms docs schema_fields raw_flag);
         before = snd (nexts step i start);
         results = fst (nexts step (Suc i) start);
         at_yield = snd (nexts step (Suc i) start);
         resumed = snd (step at_yield)
     in ((\<forall>j<i. \<exists>u. results ! j = Yield u) =
           (\<forall>j<i. \<forall>f\<in>set schema_fields. (docs ! j) f \<noteq> None)) \<and>
        ((\<forall>j<i. \<exists>u. results ! j = Yield u) \<longrightarrow>
           lookup (gen_self before) (int i) = None \<and>
           (\<forall>j\<le>i. lookup (gen_self at_yield) (int j) = Some ((docs ! j) ''onet_soc_code'')) \<and>
           k (gen_self at_yield) = int i \<and>
           (\<forall>j\<le>i. \<forall>u. results ! j = Yield u \<longrightarrow> tags u = [int j]) \<and>
           ((\<forall>f\<in>set schema_fields. (docs ! i) f \<noteq> None) \<longrightarrow>
              results ! i =
                Yield \<lparr>words = str_split (join_spaces
                           (map (\<lambda>f. clean_str transforms (get_default (docs ! i) f []))
                              schema_fields)),
                       tags = [int i]\<rparr> \<and>
              k (gen_self resumed) = int i + 1 \<and>
              map (\<lambda>r. case r of Yield u \<Rightarrow> tags u | _ \<Rightarrow> []) results
                = map (\<lambda>j. [int j]) [0..<Suc i] \<and>
              distinct (map (\<lambda>r. case r of Yield u \<Rightarrow> tags u | _ \<Rightarrow> []) results)) \<and>
           ((\<exists>f\<in>set schema_fields. (docs ! i) f = None) \<longrightarrow>
              (\<exists>f. results ! i = Raise (KeyError f)) \<and>
              k (gen_self resumed) = int i)))"
proof -
  let ?step = "Doc2VecGensimCorpusCreator_next Doc2VecGensimCorpusCreator_transform"
  let ?start = "Doc2VecGensimCorpusCreator_iter
                   (Doc2VecGensimCorpusCreator_new transforms docs schema_fields raw_flag)"
  let ?G = "generator_after transforms docs schema_fields raw_flag"
  let ?Y = "yielded_unit transforms docs schema_fields"
  let ?present = "\<lambda>j. \<forall>f\<in>set schema_fields. (docs ! j) f \<noteq> None"
  let ?results = "fst (nexts ?step (Suc i) ?start)"
  let ?at = "snd (nexts ?step (Suc i) ?start)"
  have start: "?start = ?G 0" by (simp add: generator_after_0)
  have k0: "k (Doc2VecGensimCorpusCreator_new transforms docs schema_fields raw_flag) = 0"
    by (simp add: doc2vec_object)
  obtain rs g where n: "nexts ?step i ?start = (rs, g)" by force
  obtain r g' where s: "?step g = (r, g')" by force
  have sn: "nexts ?step (Suc i) ?start = (rs @ [r], g')"
    by (simp only: nexts_Suc_end n s prod.case)
  have res: "?results = rs @ [r]" and at: "?at = g'"
    by (simp_all only: sn fst_conv snd_conv)
  note nexts.simps [simp del]
  have len: "length rs = i"
    using length_nexts[of ?step i ?start] n by simp
  have prefix: "(rs @ [r]) ! j = rs ! j" if "j < i" for j
    using that len by (simp add: nth_append)
  have lasti: "(rs @ [r]) ! i = r"
    using len by (simp add: nth_append)
  have eq: "(\<forall>j<i. \<exists>u. ?results ! j = Yield u) = (\<forall>j<i. ?present j)"
  proof
    assume "\<forall>j<i. \<exists>u. ?results ! j = Yield u"
    then have "\<forall>j<i. \<exists>u. fst (nexts ?step i (?G 0)) ! j = Yield u"
      using res at n prefix start by simp
    then show "\<forall>j<i. ?present j"
      using doc2vec_yields_need_fields[of i docs transforms schema_fields raw_flag] assms
      by simp
  next
    assume p: "\<forall>j<i. ?present j"
    have "nexts ?step i (?G 0) = (map ?Y [0..<i], ?G i)"
      using p assms by (intro doc2vec_nexts) auto
    then have "rs = map ?Y [0..<i]" using n start by simp
    then show "\<forall>j<i. \<exists>u. ?results ! j = Yield u"
      using res at prefix by (simp add: yielded_unit_def)
  qed
  have main: "lookup (gen_self (snd (nexts ?step i ?start))) (int i) = None \<and>
           (\<forall>j\<le>i. lookup (gen_self ?at) (int j) = Some ((docs ! j) ''onet_soc_code'')) \<and>
           k (gen_self ?at) = int i \<and>
           (\<forall>j\<le>i. \<forall>u. ?results ! j = Yield u \<longrightarrow> tags u = [int j]) \<and>
           (?present i \<longrightarrow>
              ?results ! i =
                Yield \<lparr>words = str_split (join_spaces
                           (map (\<lambda>f. clean_str transforms (get_default (docs ! i) f []))
                              schema_fields)),
                       tags = [int i]\<rparr> \<and>
              k (gen_self (snd (?step ?at))) = int i + 1 \<and>
              map (\<lambda>r. case r of Yield u \<Rightarrow> tags u | _ \<Rightarrow> []) ?results
                = map (\<lambda>j. [int j]) [0..<Suc i] \<and>
              distinct (map (\<lambda>r. case r of Yield u \<Rightarrow> tags u | _ \<Rightarrow> []) ?results)) \<and>
           ((\<exists>f\<in>set schema_fields. (docs ! i) f = None) \<longrightarrow>
              (\<exists>f. ?results ! i = Raise (KeyError f)) \<and>
              k (gen_self (snd (?step ?at))) = int i)"
    if consumed: "\<forall>j<i. \<exists>u. ?results ! j = Yield u"
  proof -
    have p: "\<forall>j<i. ?present j" using consumed eq by simp
    have ni: "nexts ?step i (?G 0) = (map ?Y [0..<i], ?G i)"
      using p assms by (intro doc2vec_nexts) auto
    have rs: "rs = map ?Y [0..<i]" and g: "g = ?G i"
      using ni n start by simp_all
    have before: "lookup (gen_self (snd (nexts ?step i ?start))) (int i) = None"
      by (simp add: n g generator_after_def lookup_after_def)
    have self': "gen_self g' = gen_self (?G (Suc i))"
    proof (cases "?present i")
      case True
      then show ?thesis
        using doc2vec_next_step[of i docs schema_fields transforms raw_flag] assms s g by simp
    next
      case False
      then obtain f where "f \<in> set schema_fields" "(docs ! i) f = None" by blast
      then show ?thesis
        using doc2vec_next_step_raise[of i docs f schema_fields transforms raw_flag] assms s g
        by auto
    qed
    have lk: "\<forall>j\<le>i. lookup (gen_self ?at) (int j) = Some ((docs ! j) ''onet_soc_code'')"
      by (simp add: res at self' generator_after_def lookup_after_def)
    have kk: "k (gen_self ?at) = int i"
      by (simp add: res at self' generator_after_def)
    have tag_r: "tags u = [int i]" if "r = Yield u" for u
    proof (cases "?present i")
      case True
      then have "r = ?Y i"
        using doc2vec_next_step[of i docs schema_fields transforms raw_flag] assms s g by simp
      then show ?thesis using that by (simp add: yielded_unit_def)
    next
      case False
      then obtain f where "f \<in> set schema_fields" "(docs ! i) f = None" by blast
      then have "\<exists>missing. r = Raise (KeyError missing)"
        using doc2vec_next_step_raise[of i docs f schema_fields transforms raw_flag] assms s g
        by auto
      then show ?thesis using that by auto
    qed
    have tg: "\<forall>j\<le>i. \<forall>u. ?results ! j = Yield u \<longrightarrow> tags u = [int j]"
    proof (intro allI impI)
      fix j u
      assume j: "j \<le> i" and y: "?results ! j = Yield u"
      show "tags u = [int j]"
      proof (cases "j < i")
        case True
        then have "?results ! j = ?Y j" using res at prefix rs by simp
        then show ?thesis using y by (simp add: yielded_unit_def)
      next
        case False
        then have "j = i" using j by simp
        then show ?thesis using y res at lasti tag_r by simp
      qed
    qed
    have yes: "?results ! i =
                Yield \<lparr>words = str_split (join_spaces
                           (map (\<lambda>f. clean_str transforms (get_default (docs ! i) f []))
                              schema_fields)),
                       tags = [int i]\<rparr> \<and>
              k (gen_self (snd (?step ?at))) = int i + 1 \<and>
              map (\<lambda>r. case r of Yield u \<Rightarrow> tags u | _ \<Rightarrow> []) ?results
                = map (\<lambda>j. [int j]) [0..<Suc i] \<and>
              distinct (map (\<lambda>r. case r of Yield u \<Rightarrow> tags u | _ \<Rightarrow> []) ?results)"
      if pi: "?present i"
    proof -
      have st: "?step (?G i) = (?Y i, ?G (Suc i))"
        using doc2vec_next_step[of i docs schema_fields transforms raw_flag] assms pi by simp
      have r: "r = ?Y i" and g': "g' = ?G (Suc i)" using st s g by simp_all
      have a: "?results ! i = ?Y i" using res at lasti r by simp
      have fr: "gen_frame (?G (Suc i)) = Suspended" by (simp add: generator_after_def)
      have b: "k (gen_self (snd (?step ?at))) = int i + 1"
        using doc2vec_next_resumes[OF fr] kk res at g' by simp
      have all: "?results = map ?Y [0..<Suc i]" using res at rs r by simp
      have c: "map (\<lambda>r. case r of Yield u \<Rightarrow> tags u | _ \<Rightarrow> []) ?results
                = map (\<lambda>j. [int j]) [0..<Suc i]"
        unfolding all by (simp add: yielded_unit_def del: upt_Suc)
      have d: "distinct (map (\<lambda>j. [int j]) [0..<Suc i])"
        by (simp add: distinct_map inj_on_def del: upt_Suc)
      show ?thesis using a b c d by (simp add: yielded_unit_def)
    qed
    have no: "(\<exists>f. ?results ! i = Raise (KeyError f)) \<and> k (gen_self (snd (?step ?at))) = int i"
      if miss: "\<exists>f\<in>set schema_fields. (docs ! i) f = None"
    proof -
      obtain f where "f \<in> set schema_fields" "(docs ! i) f = None" using miss by blast
      then obtain missing where st: "?step (?G i) =
         (Raise (KeyError missing),
          \<lparr>gen_self = gen_self (?G (Suc i)), gen_frame = Finished,
           gen_source = drop (Suc i) docs\<rparr>)"
        using doc2vec_next_step_raise[of i docs f schema_fields transforms raw_flag] assms
        by blast
      have r: "r = Raise (KeyError missing)" and g': "gen_frame g' = Finished"
        using st s g by auto
      have "?step g' = (StopIteration, g')"
        using doc2vec_next_finished[OF g'] .
      then have "k (gen_self (snd (?step ?at))) = int i"
        using kk res at by simp
      then show ?thesis using res at lasti r by auto
    qed
    show ?thesis
      using before lk kk tg yes no by blast
  qed
  show ?thesis
    unfolding Let_def using k0 eq main by blast
qed

theorem doc2vec_counter_lookup_invariant_witness:
  "(let step = Doc2VecGensimCorpusCreator_next Doc2VecGensimCorpusCreator_transform;
        start = Doc2VecGensimCorpusCreator_iter
                  (Doc2VecGensimCorpusCreator_new sample_nlp sample_postings [''description'']
                     False);
        results = fst (nexts step (Suc (Suc 0)) start);
        at_yield = snd (nexts step (Suc (Suc 0)) start)
    in results ! Suc 0 = Yield \<lparr>words = [''cares''], tags = [1]\<rparr> \<and>
       lookup (gen_self at_yield) 0 = Some (Some ''11-1011.00'') \<and>
       lookup (gen_self at_yield) 1 = Some None \<and>
       k (gen_self at_yield) = 1 \<and>
       k (gen_self (snd (step at_yield))) = 2) \<and>
   (let step = Doc2VecGensimCorpusCreator_next Doc2VecGensimCorpusCreator_transform;
        start = Doc2VecGensimCorpusCreator_iter
                  (Doc2VecGensimCorpusCreator_new sample_nlp sample_postings
                     [''description'', ''onet_soc_code''] False);
        results = fst (nexts step (Suc (Suc 0)) start);
        at_yield = snd (nexts step (Suc (Suc 0)) start)
    in (\<exists>f. results ! Suc 0 = Raise (KeyError f)) \<and>
       lookup (gen_self at_yield) 0 = Some (Some ''11-1011.00'') \<and>
       lookup (gen_self at_yield) 1 = Some None \<and>
       k (gen_self at_yield) = 1 \<and>
       k (gen_self (snd (step at_yield))) = 1)"
proof -
  have h1: "Suc 0 < length sample_postings"
    by (simp add: sample_postings_def)
  have d0: "sample_postings ! 0 =
              [''description'' \<mapsto> ''Hello, World!'', ''onet_soc_code'' \<mapsto> ''11-1011.00'']"
    and d1: "sample_postings ! Suc 0 = [''description'' \<mapsto> ''Cares'']"
    by (simp_all add: sample_postings_def)
  show ?thesis
    using doc2vec_counter_lookup_invariant[OF h1, of sample_nlp "[''description'']" False]
          doc2vec_counter_lookup_invariant[OF h1, of sample_nlp
             "[''description'', ''onet_soc_code'']" False]
    by (simp add: Let_def d0 d1 get_default_def sample_nlp_clean_str lsp_cares str_split_def
        isspace_def le_Suc_eq all_conj_distrib del: nexts.simps)
qed

section \<open>The first line of a description\<close>

lemma section_scan_no_match:
  assumes "\<not> re_match heading"
      and "prior_empty \<and> lines \<noteq> [] \<and> heading_like (hd lines) \<longrightarrow> \<not> re_match (hd lines)"
      and "\<forall>i. Suc i < length lines \<and> str_strip (lines ! i) = [] \<and> heading_like (lines ! Suc i)
             \<longrightarrow> \<not> re_match (lines ! Suc i)"
  shows "\<exists>prior_empty' heading'.
           section_scan re_match prior_empty heading ws lines = (prior_empty', heading', ws) \<and>
           \<not> re_match heading'"
  using assms
proof (induction lines arbitrary: prior_empty heading)
  case Nil
  then show ?case by simp
next
  case (Cons line lines)
  let ?h = "if prior_empty \<and> heading_like line then line else heading"
  have h: "\<not> re_match ?h"
    using Cons.prems(1,2) by auto
  have first: "str_strip line = [] \<and> lines \<noteq> [] \<and> heading_like (hd lines) \<longrightarrow> \<not> re_match (hd lines)"
  proof (intro impI)
    assume a: "str_strip line = [] \<and> lines \<noteq> [] \<and> heading_like (hd lines)"
    then have "Suc 0 < length (line # lines)" by (cases lines) auto
    moreover have "(line # lines) ! Suc 0 = hd lines" using a by (cases lines) auto
    ultimately show "\<not> re_match (hd lines)"
      using Cons.prems(3)[rule_format, of 0] a by simp
  qed
  have rest: "\<forall>i. Suc i < length lines \<and> str_strip (lines ! i) = [] \<and> heading_like (lines ! Suc i)
             \<longrightarrow> \<not> re_match (lines ! Suc i)"
  proof (intro allI impI)
    fix i
    assume "Suc i < length lines \<and> str_strip (lines ! i) = [] \<and> heading_like (lines ! Suc i)"
    then show "\<not> re_match (lines ! Suc i)"
      using Cons.prems(3)[rule_format, of "Suc i"] by simp
  qed
  obtain pe' h' where
    "section_scan re_match (str_strip line = []) ?h ws lines = (pe', h', ws)" "\<not> re_match h'"
    using Cons.IH[OF h first rest] by blast
  then show ?case using h by (simp add: Let_def)
qed

lemma section_scan_heading_origin:
  "section_scan re_match prior_empty heading ws lines = (prior_empty', heading', ws') \<Longrightarrow>
   heading' = heading \<or>
   (prior_empty \<and> lines \<noteq> [] \<and> heading_like (hd lines) \<and> heading' = hd lines) \<or>
   (\<exists>j. Suc j < length lines \<and> str_strip (lines ! j) = [] \<and> heading_like (lines ! Suc j) \<and>
        heading' = lines ! Suc j)"
proof (induction lines arbitrary: prior_empty heading ws)
  case Nil
  then show ?case by simp
next
  case (Cons line lines)
  let ?h = "if prior_empty \<and> heading_like line then line else heading"
  let ?ws = "if re_match ?h \<and> line \<noteq> ?h \<and> 0 < length (str_strip line)
             then ws @ str_split (strip_bullet_chars line) else ws"
  have "section_scan re_match (str_strip line = []) ?h ?ws lines = (prior_empty', heading', ws')"
    using Cons.prems by (simp add: Let_def)
  from Cons.IH[OF this]
  have "heading' = ?h \<or>
        (str_strip line = [] \<and> lines \<noteq> [] \<and> heading_like (hd lines) \<and> heading' = hd lines) \<or>
        (\<exists>j. Suc j < length lines \<and> str_strip (lines ! j) = [] \<and>
             heading_like (lines ! Suc j) \<and> heading' = lines ! Suc j)" .
  then show ?case
  proof (elim disjE)
    assume "heading' = ?h"
    then show ?thesis by (auto split: if_splits)
  next
    assume "str_strip line = [] \<and> lines \<noteq> [] \<and> heading_like (hd lines) \<and> heading' = hd lines"
    then have "Suc 0 < length (line # lines) \<and> str_strip ((line # lines) ! 0) = [] \<and>
               heading_like ((line # lines) ! Suc 0) \<and> heading' = (line # lines) ! Suc 0"
      by (cases lines) auto
    then show ?thesis by blast
  next
    assume "\<exists>j. Suc j < length lines \<and> str_strip (lines ! j) = [] \<and>
             heading_like (lines ! Suc j) \<and> heading' = lines ! Suc j"
    then obtain j where "Suc j < length lines" "str_strip (lines ! j) = []"
        "heading_like (lines ! Suc j)" "heading' = lines ! Suc j" by blast
    then have "Suc (Suc j) < length (line # lines) \<and> str_strip ((line # lines) ! Suc j) = [] \<and>
               heading_like ((line # lines) ! Suc (Suc j)) \<and>
               heading' = (line # lines) ! Suc (Suc j)"
      by simp
    then show ?thesis by blast
  qed
qed

lemma nth_take_both:
  "Suc j < length (take n xs) \<Longrightarrow>
   Suc j < n \<and> Suc j < length xs \<and> take n xs ! j = xs ! j \<and> take n xs ! Suc j = xs ! Suc j"
  by auto

text \<open>
  C10, as the code has it. The first line of a description is never taken as the current
  heading: after the first line the heading is still the empty initial string, and whatever the
  pattern and however far the scan has come, the heading is the empty initial string or a
  heading-like line that follows a blank line. When the pattern does not match the empty
  string, the lines scanned before any heading is detected (the lines under a heading on the
  first line) contribute no tokens; if moreover no heading-like line after a blank line matches
  the pattern, no token is ever collected and the transform yields an empty token list.
\<close>

theorem first_line_is_never_a_heading:
  assumes "document ''description'' = Some description"
      and "str_split_sep CHR ''\<newline>'' description = first # rest"
  shows
   "(\<exists>prior_empty ws.
       section_scan (section_regex self) False [] [] [first] = (prior_empty, [], ws)) \<and>
    (\<forall>n prior_empty heading ws.
       section_scan (section_regex self) False [] [] (take n (first # rest))
         = (prior_empty, heading, ws) \<longrightarrow>
       heading = [] \<or>
       (\<exists>j. Suc j < n \<and> Suc j < length (first # rest) \<and>
            str_strip ((first # rest) ! j) = [] \<and> heading_like ((first # rest) ! Suc j) \<and>
            heading = (first # rest) ! Suc j)) \<and>
    (\<not> section_regex self [] \<longrightarrow>
       (\<forall>n. (\<forall>j. Suc j < n \<and> Suc j < length (first # rest) \<and>
                  str_strip ((first # rest) ! j) = []
                \<longrightarrow> \<not> heading_like ((first # rest) ! Suc j)) \<longrightarrow>
            (\<exists>prior_empty.
               section_scan (section_regex self) False [] [] (take n (first # rest))
                 = (prior_empty, [], [])))) \<and>
    (\<not> section_regex self [] \<and>
     (\<forall>i. Suc i < length (first # rest) \<and> str_strip ((first # rest) ! i) = [] \<and>
          heading_like ((first # rest) ! Suc i)
        \<longrightarrow> \<not> section_regex self ((first # rest) ! Suc i)) \<longrightarrow>
       (\<forall>n. \<exists>prior_empty heading.
          section_scan (section_regex self) False [] [] (take n (first # rest))
            = (prior_empty, heading, []) \<and> \<not> section_regex self heading) \<and>
       SectionExtractCorpusCreator_transform self document =
         Inr \<lparr>words = [], tags = [k self]\<rparr>)"
proof -
  let ?re = "section_regex self"
  let ?ls = "first # rest"
  have one: "\<exists>prior_empty ws. section_scan ?re False [] [] [first] = (prior_empty, [], ws)"
    by (simp add: Let_def)
  have origin: "heading = [] \<or>
       (\<exists>j. Suc j < n \<and> Suc j < length ?ls \<and> str_strip (?ls ! j) = [] \<and>
            heading_like (?ls ! Suc j) \<and> heading = ?ls ! Suc j)"
    if sc: "section_scan ?re False [] [] (take n ?ls) = (prior_empty, heading, ws)"
    for n prior_empty heading ws
  proof -
    have "heading = [] \<or>
          (\<exists>j. Suc j < length (take n ?ls) \<and> str_strip (take n ?ls ! j) = [] \<and>
               heading_like (take n ?ls ! Suc j) \<and> heading = take n ?ls ! Suc j)"
      using section_scan_heading_origin[OF sc] by blast
    then show ?thesis
    proof (elim disjE exE)
      assume "heading = []"
      then show ?thesis by simp
    next
      fix j
      assume "Suc j < length (take n ?ls) \<and> str_strip (take n ?ls ! j) = [] \<and>
               heading_like (take n ?ls ! Suc j) \<and> heading = take n ?ls ! Suc j"
      then have "Suc j < n \<and> Suc j < length ?ls \<and> str_strip (?ls ! j) = [] \<and>
            heading_like (?ls ! Suc j) \<and> heading = ?ls ! Suc j"
        using nth_take_both[of j n ?ls] by metis
      then show ?thesis by blast
    qed
  qed
  have quiet: "\<exists>prior_empty. section_scan ?re False [] [] (take n ?ls) = (prior_empty, [], [])"
    if ne: "\<not> ?re []"
      and nd: "\<forall>j. Suc j < n \<and> Suc j < length ?ls \<and> str_strip (?ls ! j) = []
                 \<longrightarrow> \<not> heading_like (?ls ! Suc j)"
    for n
  proof -
    have "\<forall>i. Suc i < length (take n ?ls) \<and> str_strip (take n ?ls ! i) = [] \<and>
              heading_like (take n ?ls ! Suc i) \<longrightarrow> \<not> ?re (take n ?ls ! Suc i)"
    proof (intro allI impI)
      fix i
      assume a: "Suc i < length (take n ?ls) \<and> str_strip (take n ?ls ! i) = [] \<and>
              heading_like (take n ?ls ! Suc i)"
      then have "Suc i < n \<and> Suc i < length ?ls \<and> str_strip (?ls ! i) = [] \<and>
                 heading_like (?ls ! Suc i)"
        using nth_take_both[of i n ?ls] by metis
      then have False using nd by blast
      then show "\<not> ?re (take n ?ls ! Suc i)" ..
    qed
    then obtain pe h where sc: "section_scan ?re False [] [] (take n ?ls) = (pe, h, [])"
      using section_scan_no_match[of ?re "[]" False "take n ?ls" "[]"] ne by blast
    have "h = []"
      using origin[OF sc] nd by blast
    then show ?thesis using sc by blast
  qed
  have silent: "(\<forall>n. \<exists>prior_empty heading.
          section_scan ?re False [] [] (take n ?ls) = (prior_empty, heading, []) \<and>
          \<not> ?re heading) \<and>
       SectionExtractCorpusCreator_transform self document =
         Inr \<lparr>words = [], tags = [k self]\<rparr>"
    if ne: "\<not> ?re []"
      and nm: "\<forall>i. Suc i < length ?ls \<and> str_strip (?ls ! i) = [] \<and> heading_like (?ls ! Suc i)
                 \<longrightarrow> \<not> ?re (?ls ! Suc i)"
  proof -
    have scan: "\<exists>prior_empty heading.
          section_scan ?re False [] [] (take n ?ls) = (prior_empty, heading, []) \<and>
          \<not> ?re heading" for n
    proof -
      have "\<forall>i. Suc i < length (take n ?ls) \<and> str_strip (take n ?ls ! i) = [] \<and>
              heading_like (take n ?ls ! Suc i) \<longrightarrow> \<not> ?re (take n ?ls ! Suc i)"
      proof (intro allI impI)
        fix i
        assume a: "Suc i < length (take n ?ls) \<and> str_strip (take n ?ls ! i) = [] \<and>
              heading_like (take n ?ls ! Suc i)"
        then have b: "Suc i < length ?ls \<and> str_strip (?ls ! i) = [] \<and>
                   heading_like (?ls ! Suc i) \<and> take n ?ls ! Suc i = ?ls ! Suc i"
          using nth_take_both[of i n ?ls] by metis
        then have "\<not> ?re (?ls ! Suc i)" using nm by blast
        then show "\<not> ?re (take n ?ls ! Suc i)" using b by simp
      qed
      then show ?thesis
        using section_scan_no_match[of ?re "[]" False "take n ?ls" "[]"] ne by blast
    qed
    obtain pe h where "section_scan ?re False [] [] (take (length ?ls) ?ls) = (pe, h, [])"
      using scan by blast
    then have full: "section_scan ?re False [] [] ?ls = (pe, h, [])"
      by (simp del: section_scan.simps)
    have "SectionExtractCorpusCreator_transform self document =
            Inr \<lparr>words = [], tags = [k self]\<rparr>"
      by (simp add: SectionExtractCorpusCreator_transform_def getitem_def assms full
          del: section_scan.simps)
    then show ?thesis using scan by blast
  qed
  show ?thesis
    using one origin quiet silent by blast
qed

theorem first_line_is_never_a_heading_witness:
  "SectionExtractCorpusCreator_transform
     (SectionExtractCorpusCreator_new (re_match_literal ''Requirements'') sample_nlp []
        [''description''] False)
     [''description'' \<mapsto> ''Requirements:\<newline>- Must code\<newline>\<newline>Benefits:\<newline>- Gym'']
   = Inr \<lparr>words = [], tags = [0]\<rparr> \<and>
   (\<exists>prior_empty.
      section_scan (re_match_literal ''Requirements'') False [] []
        [''Requirements:'', ''- Must code'', []] = (prior_empty, [], [])) \<and>
   (\<exists>j. Suc j < 4 \<and>
        str_strip ([''Requirements:'', ''- Must code'', [], ''Benefits:'', ''- Gym''] ! j) = [] \<and>
        ''Benefits:'' = [''Requirements:'', ''- Must code'', [], ''Benefits:'', ''- Gym''] ! Suc j)"
proof -
  let ?self = "SectionExtractCorpusCreator_new (re_match_literal ''Requirements'') sample_nlp []
        [''description''] False"
  let ?d = "''Requirements:\<newline>- Must code\<newline>\<newline>Benefits:\<newline>- Gym''"
  let ?rest = "[''- Must code'', [], ''Benefits:'', ''- Gym'']"
  let ?ls = "''Requirements:'' # ?rest"
  have re: "section_regex ?self = re_match_literal ''Requirements''" "k ?self = 0"
    by (simp_all add: object_defs)
  have h1: "[''description'' \<mapsto> ?d] ''description'' = Some ?d" by simp
  have h2: "str_split_sep CHR ''\<newline>'' ?d = ?ls"
    by (simp add: str_split_sep_def)
  have h4: "\<not> section_regex ?self []"
    by (simp add: re re_match_literal_def startswith_def)
  have blank: "str_strip (?ls ! j) = [] \<Longrightarrow> Suc j < length ?ls \<Longrightarrow> j = 2" for j
  proof -
    assume a: "str_strip (?ls ! j) = []" and b: "Suc j < length ?ls"
    from b have "j < 4" by simp
    then consider "j = 0" | "j = 1" | "j = 2" | "j = 3" by linarith
    then show "j = 2"
      using a by cases (simp_all add: str_strip_def isspace_def)
  qed
  have h5: "\<forall>i. Suc i < length ?ls \<and> str_strip (?ls ! i) = [] \<and> heading_like (?ls ! Suc i)
             \<longrightarrow> \<not> section_regex ?self (?ls ! Suc i)"
  proof (intro allI impI)
    fix i
    assume a: "Suc i < length ?ls \<and> str_strip (?ls ! i) = [] \<and> heading_like (?ls ! Suc i)"
    then have "i = 2" using blank by blast
    then show "\<not> section_regex ?self (?ls ! Suc i)"
      by (simp add: re re_match_literal_def startswith_def)
  qed
  have quiet3: "\<forall>j. Suc j < 3 \<and> Suc j < length ?ls \<and> str_strip (?ls ! j) = []
                 \<longrightarrow> \<not> heading_like (?ls ! Suc j)"
  proof (intro allI impI)
    fix j
    assume a: "Suc j < 3 \<and> Suc j < length ?ls \<and> str_strip (?ls ! j) = []"
    then have "j = 2" using blank by blast
    then show "\<not> heading_like (?ls ! Suc j)" using a by simp
  qed
  have sc4: "section_scan (section_regex ?self) False [] [] (take 4 ?ls)
               = (False, ''Benefits:'', [])"
    by (simp add: re re_match_literal_def heading_like_def string_ops numeral_eq_Suc)
  note t = first_line_is_never_a_heading
             [where document = "[''description'' \<mapsto> ?d]" and description = ?d
                and first = "''Requirements:''" and rest = ?rest and self = ?self, OF h1 h2]
  have a: "SectionExtractCorpusCreator_transform ?self [''description'' \<mapsto> ?d]
             = Inr \<lparr>words = [], tags = [0]\<rparr>"
    using t h4 h5 re(2) by simp
  have "\<exists>prior_empty. section_scan (section_regex ?self) False [] [] (take 3 ?ls)
          = (prior_empty, [], [])"
    using t h4 quiet3 by blast
  then have b: "\<exists>prior_empty.
      section_scan (re_match_literal ''Requirements'') False [] []
        [''Requirements:'', ''- Must code'', []] = (prior_empty, [], [])"
    by (simp add: re numeral_eq_Suc del: section_scan.simps)
  have "''Benefits:'' = [] \<or>
        (\<exists>j. Suc j < 4 \<and> Suc j < length ?ls \<and> str_strip (?ls ! j) = [] \<and>
             heading_like (?ls ! Suc j) \<and> ''Benefits:'' = ?ls ! Suc j)"
    using t sc4 by blast
  then have c: "\<exists>j. Suc j < 4 \<and> str_strip (?ls ! j) = [] \<and> ''Benefits:'' = ?ls ! Suc j"
    by auto
  show ?thesis using a b c by blast
qed

text \<open>
  C10 as stated fails for a pattern that matches the empty string: with a pattern that matches
  every string, the description "Requirements:, - Must code" (one line each) has its matching
  heading on the first line and no other heading, yet the lines contribute tokens under the
  empty initial heading and the token list is not empty.
\<close>

theorem pattern_matching_empty_collects_tokens:
  "(\<lambda>s. True) ''Requirements:'' \<and>
   SectionExtractCorpusCreator_transform
     (SectionExtractCorpusCreator_new (\<lambda>s. True) sample_nlp [] [''description''] False)
     [''description'' \<mapsto> ''Requirements:\<newline>- Must code'']
   = Inr \<lparr>words = [''Requirements:'', ''Must'', ''code''], tags = [0]\<rparr> \<and>
   SectionExtractCorpusCreator_transform
     (SectionExtractCorpusCreator_new (\<lambda>s. True) sample_nlp [] [''description''] False)
     [''description'' \<mapsto> ''Requirements:\<newline>- Must code'']
   \<noteq> Inr \<lparr>words = [], tags = [0]\<rparr>"
  by (simp add: SectionExtractCorpusCreator_transform_def getitem_def heading_like_def
      strip_bullet_chars_def string_ops object_defs)

end
